theory Spec2Isabelle
  imports Main
begin

section \<open>Python values and library operations used by \<^verbatim>\<open>Rochester_db_gen.py\<close>\<close>

text \<open>
  The exceptions the script can raise. None of them is caught anywhere in the script, so
  each one ends the run.
\<close>

datatype error =
    HTTPError
  | JSONDecodeError
  | AttributeError
  | TypeError
  | KeyError
  | ValueError
  | ParseError

text \<open>
  What \<^verbatim>\<open>r.json()\<close> returns: a decoded JSON value. An object is the decoded
  \<^verbatim>\<open>dict\<close>, as its items in insertion order. JSON numbers are the integral
  ones.
\<close>

datatype json =
    JNull
  | JBool bool
  | JNum int
  | JStr string
  | JArr "json list"
  | JObj "(string \<times> json) list"

text \<open>\<^verbatim>\<open>bool(x)\<close>, as used by \<^verbatim>\<open>if not ids\<close>.\<close>

fun truthy :: "json \<Rightarrow> bool" where
  "truthy JNull = False"
| "truthy (JBool b) = b"
| "truthy (JNum n) = (n \<noteq> 0)"
| "truthy (JStr s) = (s \<noteq> [])"
| "truthy (JArr xs) = (xs \<noteq> [])"
| "truthy (JObj kvs) = (kvs \<noteq> [])"

text \<open>\<^verbatim>\<open>x.get(key, default)\<close>: only a \<^verbatim>\<open>dict\<close> has the method.\<close>

fun dict_get :: "json \<Rightarrow> string \<Rightarrow> json \<Rightarrow> error + json" where
  "dict_get (JObj kvs) k d = (case map_of kvs k of None \<Rightarrow> Inr d | Some v \<Rightarrow> Inr v)"
| "dict_get _ k d = Inl AttributeError"

text \<open>
  \<^verbatim>\<open>x[key]\<close> with a string key: \<^verbatim>\<open>KeyError\<close> on a dict without the key,
  \<^verbatim>\<open>TypeError\<close> on a value that is not a dict.
\<close>

fun subscript :: "json \<Rightarrow> string \<Rightarrow> error + json" where
  "subscript (JObj kvs) k = (case map_of kvs k of None \<Rightarrow> Inl KeyError | Some v \<Rightarrow> Inr v)"
| "subscript _ k = Inl TypeError"

text \<open>
  \<^verbatim>\<open>pmids.extend(ids)\<close>: a list gives its elements, a string its characters, a
  dict its keys; a number, a boolean and \<^verbatim>\<open>None\<close> are not iterable.
\<close>

fun list_extend :: "json list \<Rightarrow> json \<Rightarrow> error + json list" where
  "list_extend pmids (JArr xs) = Inr (pmids @ xs)"
| "list_extend pmids (JStr s) = Inr (pmids @ map (\<lambda>c. JStr [c]) s)"
| "list_extend pmids (JObj kvs) = Inr (pmids @ map (\<lambda>kv. JStr (fst kv)) kvs)"
| "list_extend pmids _ = Inl TypeError"

subsection \<open>\<^verbatim>\<open>int(x)\<close>\<close>

text \<open>
  Of a string, \<^verbatim>\<open>int\<close> reads a decimal literal: surrounding white space is
  stripped and a sign may lead. A character stands for a code point below 256: among
  these the white space is the ASCII white space with the four separators
  \<open>0x1C\<close> to \<open>0x1F\<close>, the next-line character \<open>0x85\<close> and the no-break space
  \<open>0xA0\<close>, and the decimal digits are the ASCII ones. The interpreter's limit on the
  number of digits is a runtime setting and is left out.
\<close>

definition is_space :: "char \<Rightarrow> bool" where
  "is_space c =
     (c \<in> set [CHR '' '', CHR 0x09, CHR 0x0A, CHR 0x0B, CHR 0x0C, CHR 0x0D,
                CHR 0x1C, CHR 0x1D, CHR 0x1E, CHR 0x1F, CHR 0x85, CHR 0xA0])"

definition is_digit :: "char \<Rightarrow> bool" where
  "is_digit c = (48 \<le> (of_char c :: nat) \<and> (of_char c :: nat) \<le> 57)"

definition digit_val :: "char \<Rightarrow> nat" where
  "digit_val c = of_char c - 48"

definition strip :: "string \<Rightarrow> string" where
  "strip s = rev (dropWhile is_space (rev (dropWhile is_space s)))"

text \<open>
  The digits of a decimal literal: digits, with single underscores allowed between two
  digits. The accumulator is the value read so far; the flag says that the previous
  character was a digit.
\<close>

fun digits :: "nat \<Rightarrow> bool \<Rightarrow> string \<Rightarrow> nat option" where
  "digits acc prev [] = (if prev then Some acc else None)"
| "digits acc prev (c # cs) =
     (if is_digit c then digits (acc * 10 + digit_val c) True cs
      else if c = CHR ''_'' \<and> prev then
        (case cs of [] \<Rightarrow> None | d # _ \<Rightarrow> if is_digit d then digits acc False cs else None)
      else None)"

definition int_of_string :: "string \<Rightarrow> int option" where
  "int_of_string s =
     (case strip s of
        [] \<Rightarrow> None
      | c # cs \<Rightarrow>
          if c = CHR ''-'' then map_option (\<lambda>n. - int n) (digits 0 False cs)
          else if c = CHR ''+'' then map_option int (digits 0 False cs)
          else map_option int (digits 0 False (c # cs)))"

fun py_int :: "json \<Rightarrow> error + int" where
  "py_int (JNum n) = Inr n"
| "py_int (JBool b) = Inr (if b then 1 else 0)"
| "py_int (JStr s) = (case int_of_string s of None \<Rightarrow> Inl ValueError | Some n \<Rightarrow> Inr n)"
| "py_int _ = Inl TypeError"

section \<open>The Identifier Discoverer: \<^verbatim>\<open>get_pmids\<close>\<close>

text \<open>
  An HTTP response: its status code and its content. For the search endpoint the content
  is the decoded body (\<open>None\<close> when the body is not JSON, where
  \<^verbatim>\<open>r.json()\<close> raises).
\<close>

record 'a response =
  status_code :: nat
  content :: 'a

type_synonym search_response = "json option response"

text \<open>\<^verbatim>\<open>r.raise_for_status()\<close> raises for the 4xx and 5xx codes.\<close>

definition raises_for_status :: "nat \<Rightarrow> bool" where
  "raises_for_status code = (400 \<le> code \<and> code < 600)"

text \<open>
  The search endpoint answers a request by its \<^verbatim>\<open>retmax\<close> and
  \<^verbatim>\<open>retstart\<close> (the other parameters are the same in every request of a run).
\<close>

type_synonym search_endpoint = "nat \<Rightarrow> nat \<Rightarrow> search_response"

text \<open>
  The outcome of the discovery: the exception raised or the list returned, and the
  \<^verbatim>\<open>retstart\<close> of every request issued, in order.
\<close>

type_synonym discovery = "(error + json list) \<times> nat list"

text \<open>
  One iteration of \<^verbatim>\<open>while True\<close> per call. The loop has no bound of its own: it
  runs for as long as the endpoint keeps sending non-empty pages and a count above the
  offset, so the result is an option and \<open>None\<close> is the run that never returns.
  The pause after each request changes no value and is left out.
\<close>

partial_function (option) get_pmids_loop ::
  "search_endpoint \<Rightarrow> nat \<Rightarrow> json list \<Rightarrow> nat \<Rightarrow> nat list \<Rightarrow> discovery option" where
  "get_pmids_loop endpoint retmax pmids retstart reqs =
     (let r = endpoint retmax retstart; reqs' = reqs @ [retstart] in
      if raises_for_status (status_code r) then Some (Inl HTTPError, reqs')
      else
       (case content r of
          None \<Rightarrow> Some (Inl JSONDecodeError, reqs')
        | Some data \<Rightarrow>
           (case dict_get data ''esearchresult'' (JObj []) of
              Inl e \<Rightarrow> Some (Inl e, reqs')
            | Inr res \<Rightarrow>
               (case dict_get res ''idlist'' (JArr []) of
                  Inl e \<Rightarrow> Some (Inl e, reqs')
                | Inr ids \<Rightarrow>
                   if \<not> truthy ids then Some (Inr pmids, reqs')
                   else
                    (case list_extend pmids ids of
                       Inl e \<Rightarrow> Some (Inl e, reqs')
                     | Inr pmids' \<Rightarrow>
                        (case subscript data ''esearchresult'' of
                           Inl e \<Rightarrow> Some (Inl e, reqs')
                         | Inr res' \<Rightarrow>
                            (case subscript res' ''count'' of
                               Inl e \<Rightarrow> Some (Inl e, reqs')
                             | Inr c \<Rightarrow>
                                (case py_int c of
                                   Inl e \<Rightarrow> Some (Inl e, reqs')
                                 | Inr n \<Rightarrow>
                                    if n \<le> int (retstart + retmax)
                                    then Some (Inr pmids', reqs')
                                    else get_pmids_loop endpoint retmax pmids'
                                           (retstart + retmax) reqs'))))))))"

declare get_pmids_loop.simps [code]

definition get_pmids :: "search_endpoint \<Rightarrow> discovery option" where
  "get_pmids endpoint = get_pmids_loop endpoint 200 [] 0 []"

text \<open>
  A well-formed body as the search endpoint sends it: the result envelope with the total
  count and the identifiers of the page.
\<close>

definition page_body :: "json \<Rightarrow> json \<Rightarrow> json" where
  "page_body c ids = JObj [(''esearchresult'', JObj [(''count'', c), (''idlist'', ids)])]"

definition ok_response :: "json \<Rightarrow> search_response" where
  "ok_response data = \<lparr>status_code = 200, content = Some data\<rparr>"

text \<open>
  The simulated search endpoint of the pagination tests: it holds the identifiers
  \<open>ids\<close>, reports the count \<open>c\<close> in every response and serves the
  page of \<^verbatim>\<open>retmax\<close> identifiers that starts at \<^verbatim>\<open>retstart\<close>.
\<close>

definition sim_page :: "string list \<Rightarrow> nat \<Rightarrow> nat \<Rightarrow> json list" where
  "sim_page ids retmax retstart = map JStr (take retmax (drop retstart ids))"

definition sim_endpoint :: "json \<Rightarrow> string list \<Rightarrow> search_endpoint" where
  "sim_endpoint c ids retmax retstart = ok_response (page_body c (JArr (sim_page ids retmax retstart)))"

section \<open>The parsed markup: \<^verbatim>\<open>xml.etree.ElementTree\<close>\<close>

text \<open>
  An element has a tag, an attribute dictionary, a text (\<^verbatim>\<open>None\<close> when the
  element has no character data before its first child) and its children in document
  order.
\<close>

datatype xml = Elem (tag: string) (attrib: "(string \<times> string) list")
  (elem_text: "string option") (children: "xml list")

text \<open>\<^verbatim>\<open>Element.iter()\<close>: the element and all its descendants, in document order.\<close>

fun iter :: "xml \<Rightarrow> xml list" where
  "iter (Elem t a x cs) = Elem t a x cs # concat (map iter cs)"

text \<open>
  The steps of the paths the script uses: \<^verbatim>\<open>.//T\<close> selects the descendants
  with tag \<open>T\<close> (the element itself excluded), \<^verbatim>\<open>/T\<close> or a bare
  \<^verbatim>\<open>T\<close> the children with tag \<open>T\<close>.
\<close>

datatype step = Descendant string | Child string

fun select :: "step \<Rightarrow> xml list \<Rightarrow> xml list" where
  "select (Descendant t) es =
     concat (map (\<lambda>e. filter (\<lambda>d. tag d = t) (concat (map iter (children e)))) es)"
| "select (Child t) es = concat (map (\<lambda>e. filter (\<lambda>d. tag d = t) (children e)) es)"

definition findall :: "step list \<Rightarrow> xml \<Rightarrow> xml list" where
  "findall path e = foldl (\<lambda>es s. select s es) [e] path"

text \<open>
  \<^verbatim>\<open>findtext(path, default)\<close>: the text of the first match, the empty string
  when that element has no text, the default when nothing matches.
\<close>

definition findtext :: "step list \<Rightarrow> string option \<Rightarrow> xml \<Rightarrow> string option" where
  "findtext path dflt e =
     (case findall path e of
        [] \<Rightarrow> dflt
      | m # _ \<Rightarrow> (case elem_text m of None \<Rightarrow> Some [] | Some s \<Rightarrow> Some s))"

text \<open>\<^verbatim>\<open>x or ""\<close> for \<open>x\<close> a string or \<^verbatim>\<open>None\<close>.\<close>

definition or_empty :: "string option \<Rightarrow> string" where
  "or_empty x = (case x of None \<Rightarrow> [] | Some s \<Rightarrow> if s = [] then [] else s)"

text \<open>\<^verbatim>\<open>sep.join(xs)\<close>.\<close>

fun join :: "string \<Rightarrow> string list \<Rightarrow> string" where
  "join sep [] = []"
| "join sep [x] = x"
| "join sep (x # y # ys) = x @ sep @ join sep (y # ys)"

text \<open>\<^verbatim>\<open>filter(None, xs)\<close>: the elements that are neither \<^verbatim>\<open>None\<close> nor empty.\<close>

fun filter_none :: "string option list \<Rightarrow> string list" where
  "filter_none [] = []"
| "filter_none (None # xs) = filter_none xs"
| "filter_none (Some s # xs) = (if s = [] then filter_none xs else s # filter_none xs)"

section \<open>The Record Extractor: the body of the loop of \<^verbatim>\<open>parse_articles\<close>\<close>

text \<open>
  The tuple handed to \<^verbatim>\<open>insert_article\<close>, in the order of the columns. The
  identifier and the DOI can be \<^verbatim>\<open>None\<close>; every other field is a string.
\<close>

record article =
  pmid :: "string option"
  pub_year :: string
  pub_date :: string
  first_author :: string
  all_authors :: string
  title :: string
  issn :: string
  doi :: "string option"
  pages :: string
  issue :: string
  volume :: string
  journal :: string
  journal_abbr :: string
  abstract_text :: string

text \<open>
  \<^verbatim>\<open>for el in article.findall(".//ArticleId"): if el.attrib.get("IdType") == "doi": doi = el.text\<close>
\<close>

fun doi_loop :: "string option \<Rightarrow> xml list \<Rightarrow> string option" where
  "doi_loop d [] = d"
| "doi_loop d (el # els) =
     doi_loop (if map_of (attrib el) ''IdType'' = Some ''doi'' then elem_text el else d) els"

text \<open>The name built for one \<^verbatim>\<open>Author\<close> element.\<close>

definition author_name :: "xml \<Rightarrow> string" where
  "author_name author =
     (let lastname = findtext [Child ''LastName''] None author;
          forename = findtext [Child ''ForeName''] None author
      in join '' '' (filter_none [forename, lastname]))"

text \<open>\<^verbatim>\<open>for author in article.findall(".//Author"): ... if name: authors.append(name)\<close>\<close>

fun authors_loop :: "string list \<Rightarrow> xml list \<Rightarrow> string list" where
  "authors_loop authors [] = authors"
| "authors_loop authors (author # rest) =
     (let name = author_name author
      in authors_loop (if name \<noteq> [] then authors @ [name] else authors) rest)"

text \<open>\<^verbatim>\<open>[t.text for t in ... if t.text]\<close>\<close>

fun texts :: "xml list \<Rightarrow> string list" where
  "texts [] = []"
| "texts (t # ts) =
     (case elem_text t of
        None \<Rightarrow> texts ts
      | Some s \<Rightarrow> if s = [] then texts ts else s # texts ts)"

definition parse_article :: "xml \<Rightarrow> article" where
  "parse_article a =
     (let authors = authors_loop [] (findall [Descendant ''Author''] a)
      in \<lparr>pmid = findtext [Descendant ''PMID''] None a,
          pub_year = or_empty (findtext [Descendant ''JournalIssue'', Child ''PubDate'', Child ''Year''] None a),
          pub_date = or_empty (findtext [Descendant ''PubDate'', Child ''MedlineDate''] None a),
          first_author = (case authors of [] \<Rightarrow> [] | n # _ \<Rightarrow> n),
          all_authors = join '', '' authors,
          title = or_empty (findtext [Descendant ''ArticleTitle''] (Some []) a),
          issn = or_empty (findtext [Descendant ''Journal'', Child ''ISSN''] (Some []) a),
          doi = doi_loop (Some []) (findall [Descendant ''ArticleId''] a),
          pages = or_empty (findtext [Descendant ''Pagination'', Child ''MedlinePgn''] None a),
          issue = or_empty (findtext [Descendant ''JournalIssue'', Child ''Issue''] None a),
          volume = or_empty (findtext [Descendant ''JournalIssue'', Child ''Volume''] None a),
          journal = or_empty (findtext [Descendant ''Journal'', Child ''Title''] (Some []) a),
          journal_abbr = or_empty (findtext [Descendant ''Journal'', Child ''ISOAbbreviation''] (Some []) a),
          abstract_text =
            (let t = join '' '' (texts (findall [Descendant ''Abstract'', Child ''AbstractText''] a))
             in if t = [] then [] else t)\<rparr>)"

section \<open>The store and the Loader\<close>

text \<open>
  The table \<^verbatim>\<open>pubmed_articles\<close>: its rows in insertion order. The database file
  either has the table or not; \<^verbatim>\<open>CREATE TABLE IF NOT EXISTS\<close> leaves an existing
  table as it is.
\<close>

type_synonym table = "article list"

definition create_table :: "table option \<Rightarrow> table" where
  "create_table db = (case db of None \<Rightarrow> [] | Some t \<Rightarrow> t)"

text \<open>
  \<^verbatim>\<open>INSERT OR IGNORE\<close> on a table whose primary key is the text column
  \<^verbatim>\<open>pmid\<close>: the row is dropped when a row with the same key is stored. SQLite
  compares a \<^verbatim>\<open>NULL\<close> key as different from every key, itself included, and
  accepts it in a text primary key, so a row without identifier is always stored.
\<close>

definition insert_article :: "table \<Rightarrow> article \<Rightarrow> table" where
  "insert_article conn data =
     (case pmid data of
        None \<Rightarrow> conn @ [data]
      | Some p \<Rightarrow> if \<exists>r \<in> set conn. pmid r = Some p then conn else conn @ [data])"

text \<open>
  \<^verbatim>\<open>parse_articles\<close>: \<^verbatim>\<open>ET.fromstring\<close> raises on markup that is not
  well formed (\<open>None\<close> here), before any record is stored; then every
  \<^verbatim>\<open>PubmedArticle\<close> element is extracted and inserted, in document order.
\<close>

definition parse_articles :: "(string \<Rightarrow> xml option) \<Rightarrow> string \<Rightarrow> table \<Rightarrow> error + table" where
  "parse_articles fromstring xml_data conn =
     (case fromstring xml_data of
        None \<Rightarrow> Inl ParseError
      | Some root \<Rightarrow>
          Inr (foldl (\<lambda>c a. insert_article c (parse_article a)) conn
                 (findall [Descendant ''PubmedArticle''] root)))"

section \<open>The Record Fetcher and the orchestrator\<close>

text \<open>
  The remote services and the markup parser of a run: the search endpoint, the detail
  endpoint (answering the comma-joined identifiers with the text of its response) and
  \<^verbatim>\<open>ET.fromstring\<close>.
\<close>

record env =
  esearch :: search_endpoint
  efetch :: "string \<Rightarrow> string response"
  fromstring :: "string \<Rightarrow> xml option"

text \<open>\<^verbatim>\<open>",".join(pmids)\<close> raises \<^verbatim>\<open>TypeError\<close> on an item that is not a string.\<close>

fun strs :: "json list \<Rightarrow> string list option" where
  "strs [] = Some []"
| "strs (JStr s # xs) = map_option ((#) s) (strs xs)"
| "strs (_ # xs) = None"

definition fetch_details :: "env \<Rightarrow> json list \<Rightarrow> error + string" where
  "fetch_details e pmids =
     (case strs pmids of
        None \<Rightarrow> Inl TypeError
      | Some ss \<Rightarrow>
          (let r = efetch e (join '','' ss)
           in if raises_for_status (status_code r) then Inl HTTPError else Inr (content r)))"

text \<open>\<^verbatim>\<open>range(start, stop, step)\<close> for a positive step.\<close>

function py_range :: "nat \<Rightarrow> nat \<Rightarrow> nat \<Rightarrow> nat list" where
  "py_range i stop step =
     (if i < stop \<and> 0 < step then i # py_range (i + step) stop step else [])"
  by pat_completeness auto
termination
  by (relation "measure (\<lambda>(i, stop, step). stop - i)") auto

declare py_range.simps [simp del]

definition batch_size :: nat where
  "batch_size = 200"

text \<open>
  The result of a run: the exception that ended it, if any; the table as the run left
  it (every insertion is committed on its own, so the rows stored before an exception
  stay); and the batches handed to \<^verbatim>\<open>fetch_details\<close>, in order.
\<close>

record run =
  raised :: "error option"
  store :: table
  batches :: "json list list"

text \<open>
  \<^verbatim>\<open>for i in range(0, len(pmids), batch_size)\<close>, one iteration per element of
  the range.
\<close>

fun batch_loop :: "env \<Rightarrow> json list \<Rightarrow> nat list \<Rightarrow> table \<Rightarrow> json list list \<Rightarrow> run" where
  "batch_loop e pmids [] conn bs = \<lparr>raised = None, store = conn, batches = bs\<rparr>"
| "batch_loop e pmids (i # is) conn bs =
     (let batch = take batch_size (drop i pmids); bs' = bs @ [batch]
      in case fetch_details e batch of
           Inl err \<Rightarrow> \<lparr>raised = Some err, store = conn, batches = bs'\<rparr>
         | Inr xml_data \<Rightarrow>
            (case parse_articles (fromstring e) xml_data conn of
               Inl err \<Rightarrow> \<lparr>raised = Some err, store = conn, batches = bs'\<rparr>
             | Inr conn' \<Rightarrow> batch_loop e pmids is conn' bs'))"

text \<open>
  The script's main block. \<open>None\<close> is the run whose discovery never returns.
\<close>

definition main :: "env \<Rightarrow> table option \<Rightarrow> run option" where
  "main e db =
     (let conn = create_table db
      in case get_pmids (esearch e) of
           None \<Rightarrow> None
         | Some (Inl err, reqs) \<Rightarrow> Some \<lparr>raised = Some err, store = conn, batches = []\<rparr>
         | Some (Inr pmids, reqs) \<Rightarrow>
             Some (batch_loop e pmids (py_range 0 (length pmids) batch_size) conn []))"

section \<open>Notions of the specification\<close>


text \<open>
  The name of an author entry in the specification's words: forename and lastname joined
  with a single space, a part that is absent or empty being skipped.
\<close>

fun spec_author_name :: "string option \<Rightarrow> string option \<Rightarrow> string" where
  "spec_author_name None None = []"
| "spec_author_name (Some f) None = f"
| "spec_author_name None (Some l) = l"
| "spec_author_name (Some f) (Some l) =
     (if f = [] then l else if l = [] then f else f @ '' '' @ l)"

text \<open>A sequence joined with a separator: the separator stands before every element but the first.\<close>

definition separated :: "string \<Rightarrow> string list \<Rightarrow> string" where
  "separated sep xs = (case xs of [] \<Rightarrow> [] | x # ys \<Rightarrow> x @ concat (map (\<lambda>y. sep @ y) ys))"

text \<open>An external-identifier entry tagged with the type \<^verbatim>\<open>doi\<close>.\<close>

definition is_doi :: "xml \<Rightarrow> bool" where
  "is_doi el = (map_of (attrib el) ''IdType'' = Some ''doi'')"

text \<open>A name part that is there: the node exists and has text.\<close>

definition present :: "string option \<Rightarrow> bool" where
  "present x = (case x of None \<Rightarrow> False | Some s \<Rightarrow> s \<noteq> [])"

definition has_name_part :: "xml \<Rightarrow> bool" where
  "has_name_part author =
     (present (findtext [Child ''ForeName''] None author) \<or>
      present (findtext [Child ''LastName''] None author))"

subsection \<open>Record elements used as examples\<close>

text \<open>A record with an identifier and none of the optional fields.\<close>

definition sparse_article :: xml where
  "sparse_article =
     Elem ''PubmedArticle'' [] None
       [Elem ''MedlineCitation'' [] None [Elem ''PMID'' [(''Version'', ''1'')] (Some ''101'') []],
        Elem ''PubmedData'' [] None
          [Elem ''ArticleIdList'' [] None
             [Elem ''ArticleId'' [(''IdType'', ''pubmed'')] (Some ''101'') []]]]"

text \<open>
  The authors \<open>("Jane", "Doe")\<close> and \<open>("", "Smith")\<close>: with an empty
  \<^verbatim>\<open>ForeName\<close> element, and with no \<^verbatim>\<open>ForeName\<close> element.
\<close>

definition jane_doe_smith :: xml where
  "jane_doe_smith =
     Elem ''PubmedArticle'' [] None
       [Elem ''AuthorList'' [] None
          [Elem ''Author'' [] None
             [Elem ''LastName'' [] (Some ''Doe'') [], Elem ''ForeName'' [] (Some ''Jane'') []],
           Elem ''Author'' [] None
             [Elem ''LastName'' [] (Some ''Smith'') [], Elem ''ForeName'' [] None []]]]"

definition jane_doe_smith_absent :: xml where
  "jane_doe_smith_absent =
     Elem ''PubmedArticle'' [] None
       [Elem ''AuthorList'' [] None
          [Elem ''Author'' [] None
             [Elem ''LastName'' [] (Some ''Doe'') [], Elem ''ForeName'' [] (Some ''Jane'') []],
           Elem ''Author'' [] None [Elem ''LastName'' [] (Some ''Smith'') []]]]"

text \<open>Two entries of type \<^verbatim>\<open>doi\<close>, the last one without text.\<close>

definition two_dois :: xml where
  "two_dois =
     Elem ''PubmedArticle'' [] None
       [Elem ''ArticleIdList'' [] None
          [Elem ''ArticleId'' [(''IdType'', ''doi'')] (Some ''10.1000/first'') [],
           Elem ''ArticleId'' [(''IdType'', ''pii'')] (Some ''S1'') [],
           Elem ''ArticleId'' [(''IdType'', ''doi'')] None []]]"

text \<open>Four author entries, the first and the third without any name part.\<close>

definition nameless_first :: xml where
  "nameless_first =
     Elem ''PubmedArticle'' [] None
       [Elem ''AuthorList'' [] None
          [Elem ''Author'' [] None [Elem ''CollectiveName'' [] (Some ''The Group'') []],
           Elem ''Author'' [] None
             [Elem ''LastName'' [] (Some ''Doe'') [], Elem ''ForeName'' [] (Some ''Jane'') []],
           Elem ''Author'' [] None [Elem ''LastName'' [] None []],
           Elem ''Author'' [] None [Elem ''LastName'' [] (Some ''Smith'') []]]]"

text \<open>A document whose only record has no \<^verbatim>\<open>PMID\<close> node.\<close>

definition no_pmid_set :: xml where
  "no_pmid_set =
     Elem ''PubmedArticleSet'' [] None
       [Elem ''PubmedArticle'' [] None [Elem ''ArticleTitle'' [] (Some ''Untitled'') []]]"

text \<open>
  A run against remote data with two records: the search endpoint holds the identifiers
  1 and 2, and every detail response parses to a document with these two records.
\<close>

definition two_records :: xml where
  "two_records =
     Elem ''PubmedArticleSet'' [] None
       [Elem ''PubmedArticle'' [] None
          [Elem ''PMID'' [] (Some ''1'') [], Elem ''ArticleTitle'' [] (Some ''First'') []],
        Elem ''PubmedArticle'' [] None
          [Elem ''PMID'' [] (Some ''2'') [], Elem ''ArticleTitle'' [] (Some ''Second'') []]]"

definition example_env :: env where
  "example_env =
     \<lparr>esearch = sim_endpoint (JStr ''2'') [''1'', ''2''],
      efetch = (\<lambda>ids. \<lparr>status_code = 200, content = ids\<rparr>),
      fromstring = (\<lambda>text. Some two_records)\<rparr>"

text \<open>
  A run against remote data whose only record has no \<^verbatim>\<open>PMID\<close> node, and the
  row extracted from that record.
\<close>

definition no_pmid_env :: env where
  "no_pmid_env =
     \<lparr>esearch = sim_endpoint (JStr ''1'') [''7''],
      efetch = (\<lambda>ids. \<lparr>status_code = 200, content = ids\<rparr>),
      fromstring = (\<lambda>text. Some no_pmid_set)\<rparr>"

definition untitled_row :: article where
  "untitled_row =
     \<lparr>pmid = None, pub_year = [], pub_date = [], first_author = [], all_authors = [],
      title = ''Untitled'', issn = [], doi = Some [], pages = [], issue = [], volume = [],
      journal = [], journal_abbr = [], abstract_text = []\<rparr>"

text \<open>
  A row is covered by a table when inserting it adds no new record: its identifier is
  stored already, or, for a row without identifier, the very row is.
\<close>

definition covered :: "table \<Rightarrow> article \<Rightarrow> bool" where
  "covered t r = (case pmid r of None \<Rightarrow> r \<in> set t | Some p \<Rightarrow> \<exists>x \<in> set t. pmid x = Some p)"

section \<open>Pagination\<close>

text \<open>
  One iteration of the loop on a well-formed response: an empty page ends the loop with
  the identifiers collected so far; otherwise the page is appended and the loop ends
  when the advanced offset has reached the reported count.
\<close>

lemma get_pmids_loop_step:
  assumes "endpoint retmax retstart = ok_response (page_body c (JArr page))"
    and "py_int c = Inr n"
  shows "get_pmids_loop endpoint retmax pmids retstart reqs =
     (if page = [] then Some (Inr pmids, reqs @ [retstart])
      else if n \<le> int (retstart + retmax) then Some (Inr (pmids @ page), reqs @ [retstart])
      else get_pmids_loop endpoint retmax (pmids @ page) (retstart + retmax) (reqs @ [retstart]))"
  using assms
  by (subst get_pmids_loop.simps)
     (simp add: ok_response_def page_body_def raises_for_status_def Let_def)











section \<open>Bodies that lack expected fields\<close>

text \<open>
  A body without the result envelope, or with an envelope without the identifier list,
  reads as an empty page: the defaults of the two \<^verbatim>\<open>get\<close> calls end the
  loop with the identifiers collected so far.
\<close>

lemma get_pmids_loop_no_envelope:
  assumes "endpoint retmax retstart = ok_response (JObj kvs)"
    and "map_of kvs ''esearchresult'' = None"
  shows "get_pmids_loop endpoint retmax pmids retstart reqs = Some (Inr pmids, reqs @ [retstart])"
  using assms
  by (subst get_pmids_loop.simps) (simp add: ok_response_def raises_for_status_def Let_def)

lemma get_pmids_loop_no_idlist:
  assumes "endpoint retmax retstart = ok_response (JObj kvs)"
    and "map_of kvs ''esearchresult'' = Some (JObj res)"
    and "map_of res ''idlist'' = None"
  shows "get_pmids_loop endpoint retmax pmids retstart reqs = Some (Inr pmids, reqs @ [retstart])"
  using assms
  by (subst get_pmids_loop.simps) (simp add: ok_response_def raises_for_status_def Let_def)

text \<open>
  C3. The total count is read by subscript, after the page has been appended, so a
  successful response whose body holds a non-empty identifier list and no count is not
  treated as an empty page: \<^verbatim>\<open>get_pmids\<close> raises \<^verbatim>\<open>KeyError\<close>, and
  the identifiers collected so far are not returned.
\<close>

theorem get_pmids_missing_count:
  "get_pmids (\<lambda>retmax retstart.
      ok_response (JObj [(''esearchresult'', JObj [(''idlist'', JArr [JStr ''1''])])])) =
   Some (Inl KeyError, [0])"
  unfolding get_pmids_def
  by (subst get_pmids_loop.simps) (simp add: ok_response_def raises_for_status_def Let_def)

section \<open>Field extraction\<close>

lemma author_name_spec:
  "author_name author =
     spec_author_name (findtext [Child ''ForeName''] None author)
       (findtext [Child ''LastName''] None author)"
  by (cases "findtext [Child ''ForeName''] None author";
      cases "findtext [Child ''LastName''] None author")
     (simp_all add: author_name_def Let_def)

lemma author_name_spec_fun:
  "author_name = (\<lambda>author. spec_author_name (findtext [Child ''ForeName''] None author)
                                           (findtext [Child ''LastName''] None author))"
  by (rule ext) (rule author_name_spec)

lemma join_separated: "join sep xs = separated sep xs"
  by (induction sep xs rule: join.induct) (simp_all add: separated_def)

lemma authors_loop_filter:
  "authors_loop acc as = acc @ filter (\<lambda>n. n \<noteq> []) (map author_name as)"
  by (induction as arbitrary: acc) (simp_all add: Let_def)

lemma doi_loop_last:
  "doi_loop d els = (case filter is_doi els of [] \<Rightarrow> d | m # ms \<Rightarrow> elem_text (last (m # ms)))"
  by (induction els arbitrary: d) (auto simp: is_doi_def split: list.splits)

lemma author_name_empty: "(author_name author = []) = (\<not> has_name_part author)"
  unfolding author_name_spec has_name_part_def present_def
  by (cases "findtext [Child ''ForeName''] None author";
      cases "findtext [Child ''LastName''] None author") auto

lemma filter_names:
  "filter (\<lambda>n. n \<noteq> []) (map author_name as) = map author_name (filter has_name_part as)"
  by (induction as) (simp_all add: author_name_empty)

lemma or_empty_default [simp]: "or_empty None = []" "or_empty (Some []) = []"
  by (simp_all add: or_empty_def)

lemma findtext_none: "findall path a = [] \<Longrightarrow> findtext path d a = d"
  by (simp add: findtext_def)

text \<open>
  C5. The extraction of a record is a total function: no step of it can raise. For each of
  the 13 optional fields, on its own: when the field's node is absent (no element matches
  the field's path; for the DOI, no \<^verbatim>\<open>ArticleId\<close> entry has the type
  \<^verbatim>\<open>doi\<close>; for the two author fields, no \<^verbatim>\<open>Author\<close> entry) the field
  is the empty string.
\<close>

theorem missing_fields_default:
  "(findall [Descendant ''JournalIssue'', Child ''PubDate'', Child ''Year''] a = [] \<longrightarrow>
      pub_year (parse_article a) = []) \<and>
   (findall [Descendant ''PubDate'', Child ''MedlineDate''] a = [] \<longrightarrow>
      pub_date (parse_article a) = []) \<and>
   (findall [Descendant ''Author''] a = [] \<longrightarrow> first_author (parse_article a) = []) \<and>
   (findall [Descendant ''Author''] a = [] \<longrightarrow> all_authors (parse_article a) = []) \<and>
   (findall [Descendant ''ArticleTitle''] a = [] \<longrightarrow> title (parse_article a) = []) \<and>
   (findall [Descendant ''Journal'', Child ''ISSN''] a = [] \<longrightarrow> issn (parse_article a) = []) \<and>
   ((\<forall>el \<in> set (findall [Descendant ''ArticleId''] a). \<not> is_doi el) \<longrightarrow>
      doi (parse_article a) = Some []) \<and>
   (findall [Descendant ''Pagination'', Child ''MedlinePgn''] a = [] \<longrightarrow>
      pages (parse_article a) = []) \<and>
   (findall [Descendant ''JournalIssue'', Child ''Issue''] a = [] \<longrightarrow>
      issue (parse_article a) = []) \<and>
   (findall [Descendant ''JournalIssue'', Child ''Volume''] a = [] \<longrightarrow>
      volume (parse_article a) = []) \<and>
   (findall [Descendant ''Journal'', Child ''Title''] a = [] \<longrightarrow>
      journal (parse_article a) = []) \<and>
   (findall [Descendant ''Journal'', Child ''ISOAbbreviation''] a = [] \<longrightarrow>
      journal_abbr (parse_article a) = []) \<and>
   (findall [Descendant ''Abstract'', Child ''AbstractText''] a = [] \<longrightarrow>
      abstract_text (parse_article a) = [])"
proof -
  have d: "(\<forall>el \<in> set els. \<not> is_doi el) \<Longrightarrow> doi_loop (Some []) els = Some []" for els
    by (simp add: doi_loop_last filter_False)
  show ?thesis
    by (simp add: parse_article_def Let_def findtext_none d)
qed

theorem missing_fields_default_witness:
  "findall [Descendant ''JournalIssue'', Child ''PubDate'', Child ''Year''] sparse_article = [] \<and>
   findall [Descendant ''PubDate'', Child ''MedlineDate''] sparse_article = [] \<and>
   findall [Descendant ''Author''] sparse_article = [] \<and>
   findall [Descendant ''ArticleTitle''] sparse_article = [] \<and>
   findall [Descendant ''Journal'', Child ''ISSN''] sparse_article = [] \<and>
   filter is_doi (findall [Descendant ''ArticleId''] sparse_article) = [] \<and>
   findall [Descendant ''Pagination'', Child ''MedlinePgn''] sparse_article = [] \<and>
   findall [Descendant ''JournalIssue'', Child ''Issue''] sparse_article = [] \<and>
   findall [Descendant ''JournalIssue'', Child ''Volume''] sparse_article = [] \<and>
   findall [Descendant ''Journal'', Child ''Title''] sparse_article = [] \<and>
   findall [Descendant ''Journal'', Child ''ISOAbbreviation''] sparse_article = [] \<and>
   findall [Descendant ''Abstract'', Child ''AbstractText''] sparse_article = [] \<and>
   parse_article sparse_article =
     \<lparr>pmid = Some ''101'', pub_year = [], pub_date = [], first_author = [], all_authors = [],
      title = [], issn = [], doi = Some [], pages = [], issue = [], volume = [], journal = [],
      journal_abbr = [], abstract_text = []\<rparr>"
proof -
  have h: "findall [Descendant ''JournalIssue'', Child ''PubDate'', Child ''Year''] sparse_article = []"
    "findall [Descendant ''PubDate'', Child ''MedlineDate''] sparse_article = []"
    "findall [Descendant ''Author''] sparse_article = []"
    "findall [Descendant ''ArticleTitle''] sparse_article = []"
    "findall [Descendant ''Journal'', Child ''ISSN''] sparse_article = []"
    "filter is_doi (findall [Descendant ''ArticleId''] sparse_article) = []"
    "findall [Descendant ''Pagination'', Child ''MedlinePgn''] sparse_article = []"
    "findall [Descendant ''JournalIssue'', Child ''Issue''] sparse_article = []"
    "findall [Descendant ''JournalIssue'', Child ''Volume''] sparse_article = []"
    "findall [Descendant ''Journal'', Child ''Title''] sparse_article = []"
    "findall [Descendant ''Journal'', Child ''ISOAbbreviation''] sparse_article = []"
    "findall [Descendant ''Abstract'', Child ''AbstractText''] sparse_article = []"
    by (simp_all add: findall_def sparse_article_def is_doi_def)
  have p: "pmid (parse_article sparse_article) = Some ''101''"
    by (simp add: parse_article_def findall_def findtext_def sparse_article_def Let_def)
  have "parse_article sparse_article =
     \<lparr>pmid = Some ''101'', pub_year = [], pub_date = [], first_author = [], all_authors = [],
      title = [], issn = [], doi = Some [], pages = [], issue = [], volume = [], journal = [],
      journal_abbr = [], abstract_text = []\<rparr>"
    using missing_fields_default[of sparse_article] h p
    by (intro article.equality) (simp_all add: filter_empty_conv)
  with h show ?thesis by blast
qed

text \<open>
  C6. The name of each author entry is its forename and lastname joined with a single
  space, absent or empty parts being skipped; the non-empty names, in document order, are
  the author sequence; \<^verbatim>\<open>first_author\<close> is its first element, or the empty string
  when it has none, and \<^verbatim>\<open>all_authors\<close> is the sequence separated by
  \<open>", "\<close>. The authors \<open>("Jane", "Doe")\<close>, \<open>("", "Smith")\<close> give
  \<open>"Jane Doe"\<close> and \<open>"Jane Doe, Smith"\<close>.
\<close>

theorem author_joining:
  "(let names = filter (\<lambda>n. n \<noteq> [])
       (map (\<lambda>author. spec_author_name (findtext [Child ''ForeName''] None author)
                                       (findtext [Child ''LastName''] None author))
            (findall [Descendant ''Author''] a))
    in first_author (parse_article a) = (case names of [] \<Rightarrow> [] | n # _ \<Rightarrow> n) \<and>
       all_authors (parse_article a) = separated '', '' names) \<and>
   first_author (parse_article jane_doe_smith) = ''Jane Doe'' \<and>
   all_authors (parse_article jane_doe_smith) = ''Jane Doe, Smith''"
proof -
  have names: "authors_loop [] as =
      filter (\<lambda>n. n \<noteq> [])
        (map (\<lambda>author. spec_author_name (findtext [Child ''ForeName''] None author)
                                        (findtext [Child ''LastName''] None author)) as)" for as
    unfolding authors_loop_filter
    by (simp add: author_name_spec_fun)
  have g: "let names = filter (\<lambda>n. n \<noteq> [])
       (map (\<lambda>author. spec_author_name (findtext [Child ''ForeName''] None author)
                                       (findtext [Child ''LastName''] None author))
            (findall [Descendant ''Author''] a))
    in first_author (parse_article a) = (case names of [] \<Rightarrow> [] | n # _ \<Rightarrow> n) \<and>
       all_authors (parse_article a) = separated '', '' names"
    by (simp add: parse_article_def Let_def names join_separated)
  have e: "first_author (parse_article jane_doe_smith) = ''Jane Doe'' \<and>
      all_authors (parse_article jane_doe_smith) = ''Jane Doe, Smith''"
    by (simp add: parse_article_def jane_doe_smith_def findall_def findtext_def
          author_name_def Let_def)
  from g e show ?thesis by blast
qed

theorem author_joining_witness:
  "first_author (parse_article jane_doe_smith_absent) = ''Jane Doe'' \<and>
   all_authors (parse_article jane_doe_smith_absent) = ''Jane Doe, Smith''"
  using author_joining[of jane_doe_smith_absent]
  by (simp add: Let_def jane_doe_smith_absent_def findall_def findtext_def separated_def)

lemma insert_article_mono: "set conn \<subseteq> set (insert_article conn d)"
  by (auto simp: insert_article_def split: option.splits)

lemma insert_all_mono:
  "set conn \<subseteq> set (foldl (\<lambda>c a. insert_article c (parse_article a)) conn as)"
proof (induction as arbitrary: conn)
  case (Cons a as)
  from insert_article_mono Cons[of "insert_article conn (parse_article a)"] show ?case
    by fastforce
qed simp

lemma insert_all_no_pmid:
  "a \<in> set as \<Longrightarrow> pmid (parse_article a) = None \<Longrightarrow>
   parse_article a \<in> set (foldl (\<lambda>c a. insert_article c (parse_article a)) conn as)"
proof (induction as arbitrary: conn)
  case (Cons b as)
  show ?case
  proof (cases "a = b")
    case True
    with Cons.prems have "parse_article a \<in> set (insert_article conn (parse_article b))"
      by (simp add: insert_article_def)
    with insert_all_mono[of "insert_article conn (parse_article b)" as] show ?thesis
      by auto
  next
    case False
    with Cons show ?thesis by simp
  qed
qed simp

text \<open>
  C7. A record element of a well-formed document that has no \<^verbatim>\<open>PMID\<close> node is
  extracted with the identifier \<^verbatim>\<open>None\<close> and handed to the store like any
  other: \<^verbatim>\<open>parse_articles\<close> returns without an exception, the insertion appends
  the row, and the row is in the table afterwards.
\<close>

theorem no_identifier_still_stored:
  assumes "parse xml_data = Some root"
    and "a \<in> set (findall [Descendant ''PubmedArticle''] root)"
    and "findall [Descendant ''PMID''] a = []"
  shows "pmid (parse_article a) = None \<and>
         insert_article conn (parse_article a) = conn @ [parse_article a] \<and>
         (\<exists>conn'. parse_articles parse xml_data conn = Inr conn' \<and>
                  parse_article a \<in> set conn')"
proof -
  from assms(3) have p: "pmid (parse_article a) = None"
    by (simp add: parse_article_def Let_def findtext_none)
  then have "insert_article conn (parse_article a) = conn @ [parse_article a]"
    by (simp add: insert_article_def)
  moreover from assms(1) insert_all_no_pmid[OF assms(2) p]
  have "\<exists>conn'. parse_articles parse xml_data conn = Inr conn' \<and> parse_article a \<in> set conn'"
    by (simp add: parse_articles_def)
  ultimately show ?thesis using p by blast
qed

theorem no_identifier_still_stored_witness:
  "(\<lambda>_. Some no_pmid_set) ''<xml/>'' = Some no_pmid_set \<and>
   Elem ''PubmedArticle'' [] None [Elem ''ArticleTitle'' [] (Some ''Untitled'') []]
     \<in> set (findall [Descendant ''PubmedArticle''] no_pmid_set) \<and>
   findall [Descendant ''PMID'']
     (Elem ''PubmedArticle'' [] None [Elem ''ArticleTitle'' [] (Some ''Untitled'') []]) = [] \<and>
   pmid (parse_article
     (Elem ''PubmedArticle'' [] None [Elem ''ArticleTitle'' [] (Some ''Untitled'') []])) = None \<and>
   (\<exists>conn'. parse_articles (\<lambda>_. Some no_pmid_set) ''<xml/>'' [] = Inr conn' \<and>
      parse_article
        (Elem ''PubmedArticle'' [] None [Elem ''ArticleTitle'' [] (Some ''Untitled'') []])
        \<in> set conn')"
proof -
  let ?a = "Elem ''PubmedArticle'' [] None [Elem ''ArticleTitle'' [] (Some ''Untitled'') []]"
  have h1: "(\<lambda>_. Some no_pmid_set) ''<xml/>'' = Some no_pmid_set" by simp
  have h2: "?a \<in> set (findall [Descendant ''PubmedArticle''] no_pmid_set)"
    by (simp add: findall_def no_pmid_set_def)
  have h3: "findall [Descendant ''PMID''] ?a = []"
    by (simp add: findall_def)
  from no_identifier_still_stored[OF h1 h2 h3, of "[]"] h1 h2 h3 show ?thesis
    by blast
qed

text \<open>
  C9. When a record has more than one \<^verbatim>\<open>ArticleId\<close> entry of type
  \<^verbatim>\<open>doi\<close>, the DOI field is the text of the last of them in document order; when
  that entry has no text the field is \<^verbatim>\<open>None\<close>, not the empty string.
\<close>

theorem doi_is_last:
  assumes "1 < length (filter is_doi (findall [Descendant ''ArticleId''] a))"
  shows "doi (parse_article a) =
           elem_text (last (filter is_doi (findall [Descendant ''ArticleId''] a))) \<and>
         (elem_text (last (filter is_doi (findall [Descendant ''ArticleId''] a))) = None \<longrightarrow>
            doi (parse_article a) = None)"
proof -
  from assms obtain m ms where "filter is_doi (findall [Descendant ''ArticleId''] a) = m # ms"
    by (cases "filter is_doi (findall [Descendant ''ArticleId''] a)") auto
  then have "doi (parse_article a) =
      elem_text (last (filter is_doi (findall [Descendant ''ArticleId''] a)))"
    by (simp add: parse_article_def Let_def doi_loop_last)
  then show ?thesis by simp
qed

theorem doi_is_last_witness:
  "1 < length (filter is_doi (findall [Descendant ''ArticleId''] two_dois)) \<and>
   elem_text (last (filter is_doi (findall [Descendant ''ArticleId''] two_dois))) = None \<and>
   elem_text (hd (filter is_doi (findall [Descendant ''ArticleId''] two_dois))) =
     Some ''10.1000/first'' \<and>
   doi (parse_article two_dois) = None"
proof -
  have f: "filter is_doi (findall [Descendant ''ArticleId''] two_dois) =
      [Elem ''ArticleId'' [(''IdType'', ''doi'')] (Some ''10.1000/first'') [],
       Elem ''ArticleId'' [(''IdType'', ''doi'')] None []]"
    by (simp add: findall_def two_dois_def is_doi_def)
  have h: "1 < length (filter is_doi (findall [Descendant ''ArticleId''] two_dois))"
    unfolding f by simp
  from doi_is_last[OF h] h show ?thesis
    unfolding f by simp
qed

text \<open>
  C10. An author entry has an empty name exactly when it has no name part, and such an entry
  is left out of the author sequence: the sequence is the names of the entries that have a
  name part, it holds no empty name, \<^verbatim>\<open>all_authors\<close> joins exactly these names,
  and \<^verbatim>\<open>first_author\<close> is the name of the first entry that has a name part.
\<close>

theorem nameless_authors_omitted:
  "authors_loop [] (findall [Descendant ''Author''] a) =
     map author_name (filter has_name_part (findall [Descendant ''Author''] a)) \<and>
   [] \<notin> set (authors_loop [] (findall [Descendant ''Author''] a)) \<and>
   all_authors (parse_article a) =
     join '', '' (map author_name (filter has_name_part (findall [Descendant ''Author''] a))) \<and>
   first_author (parse_article a) =
     (case filter has_name_part (findall [Descendant ''Author''] a) of
        [] \<Rightarrow> [] | author # _ \<Rightarrow> author_name author) \<and>
   (\<forall>author. (author_name author = []) = (\<not> has_name_part author))"
proof -
  let ?as = "findall [Descendant ''Author''] a"
  have l: "authors_loop [] ?as = map author_name (filter has_name_part ?as)"
    by (simp add: authors_loop_filter filter_names)
  have n: "[] \<notin> set (authors_loop [] ?as)"
    by (simp add: authors_loop_filter)
  have j: "all_authors (parse_article a) = join '', '' (map author_name (filter has_name_part ?as))"
    by (simp add: parse_article_def Let_def l)
  have f: "first_author (parse_article a) =
     (case filter has_name_part ?as of [] \<Rightarrow> [] | author # _ \<Rightarrow> author_name author)"
    by (simp add: parse_article_def Let_def l split: list.splits)
  from l n j f author_name_empty show ?thesis by blast
qed

theorem nameless_authors_omitted_witness:
  "length (findall [Descendant ''Author''] nameless_first) = 4 \<and>
   \<not> has_name_part (hd (findall [Descendant ''Author''] nameless_first)) \<and>
   authors_loop [] (findall [Descendant ''Author''] nameless_first) = [''Jane Doe'', ''Smith''] \<and>
   first_author (parse_article nameless_first) = ''Jane Doe'' \<and>
   all_authors (parse_article nameless_first) = ''Jane Doe, Smith''"
proof -
  have as: "findall [Descendant ''Author''] nameless_first =
     [Elem ''Author'' [] None [Elem ''CollectiveName'' [] (Some ''The Group'') []],
      Elem ''Author'' [] None
        [Elem ''LastName'' [] (Some ''Doe'') [], Elem ''ForeName'' [] (Some ''Jane'') []],
      Elem ''Author'' [] None [Elem ''LastName'' [] None []],
      Elem ''Author'' [] None [Elem ''LastName'' [] (Some ''Smith'') []]]"
    by (simp add: findall_def nameless_first_def)
  show ?thesis
    using nameless_authors_omitted[of nameless_first] unfolding as
    by (simp add: has_name_part_def present_def findtext_def findall_def author_name_def Let_def)
qed

section \<open>Idempotent storage\<close>

lemma insert_article_covered_set: "covered t r \<Longrightarrow> set (insert_article t r) = set t"
  by (auto simp: covered_def insert_article_def split: option.splits)

lemma insert_article_covered_eq:
  "covered t r \<Longrightarrow> pmid r \<noteq> None \<Longrightarrow> insert_article t r = t"
  by (auto simp: covered_def insert_article_def split: option.splits)

lemma covered_insert_article: "covered (insert_article t r) r"
  by (auto simp: covered_def insert_article_def split: option.splits)

lemma covered_mono: "covered t r \<Longrightarrow> set t \<subseteq> set t' \<Longrightarrow> covered t' r"
  by (auto simp: covered_def split: option.splits)

lemma insert_rows_mono: "set t \<subseteq> set (foldl insert_article t rs)"
proof (induction rs arbitrary: t)
  case (Cons r rs)
  from insert_article_mono[of t r] Cons[of "insert_article t r"] show ?case by auto
qed simp

lemma insert_rows_covered: "r \<in> set rs \<Longrightarrow> covered (foldl insert_article t rs) r"
proof (induction rs arbitrary: t)
  case (Cons x rs)
  show ?case
  proof (cases "r = x")
    case True
    from covered_mono[OF covered_insert_article insert_rows_mono, of t x rs] True
    show ?thesis by simp
  next
    case False
    with Cons show ?thesis by simp
  qed
qed simp

lemma insert_covered_rows_set:
  "\<forall>r \<in> set rs. covered t r \<Longrightarrow> set (foldl insert_article t rs) = set t"
proof (induction rs arbitrary: t)
  case (Cons r rs)
  then have s: "set (insert_article t r) = set t"
    by (simp add: insert_article_covered_set)
  with Cons.prems have "\<forall>x \<in> set rs. covered (insert_article t r) x"
    by (auto intro: covered_mono)
  from Cons.IH[OF this] s show ?case by simp
qed simp

lemma insert_covered_rows_eq:
  "\<forall>r \<in> set rs. covered t r \<and> pmid r \<noteq> None \<Longrightarrow> foldl insert_article t rs = t"
  by (induction rs arbitrary: t) (simp_all add: insert_article_covered_eq)

lemma insert_rows_twice_set:
  "set (foldl insert_article (foldl insert_article t rs) rs) = set (foldl insert_article t rs)"
  by (rule insert_covered_rows_set) (simp add: insert_rows_covered)

lemma insert_rows_twice_eq:
  assumes "\<forall>r \<in> set (foldl insert_article t rs). pmid r \<noteq> None"
  shows "foldl insert_article (foldl insert_article t rs) rs = foldl insert_article t rs"
proof (rule insert_covered_rows_eq, intro ballI conjI)
  fix r assume r: "r \<in> set rs"
  then show c: "covered (foldl insert_article t rs) r" by (rule insert_rows_covered)
  show "pmid r \<noteq> None"
  proof
    assume n: "pmid r = None"
    with c have "r \<in> set (foldl insert_article t rs)" by (simp add: covered_def)
    with assms n show False by auto
  qed
qed

lemma parse_articles_rows:
  "parse_articles p x conn =
     (case p x of None \<Rightarrow> Inl ParseError
      | Some root \<Rightarrow> Inr (foldl insert_article conn
           (map parse_article (findall [Descendant ''PubmedArticle''] root))))"
  by (simp add: parse_articles_def foldl_map split: option.splits)

lemma batch_loop_rows:
  "\<exists>err rs bs'. \<forall>conn bs. batch_loop e pmids is conn bs =
      \<lparr>raised = err, store = foldl insert_article conn rs, batches = bs @ bs'\<rparr>"
proof (induction "is")
  case Nil
  show ?case by (intro exI[of _ None] exI[of _ "[]"]) simp
next
  case (Cons i "is")
  then obtain err rs bs' where ih: "\<And>conn bs. batch_loop e pmids is conn bs =
      \<lparr>raised = err, store = foldl insert_article conn rs, batches = bs @ bs'\<rparr>"
    by blast
  let ?batch = "take batch_size (drop i pmids)"
  show ?case
  proof (cases "fetch_details e ?batch")
    case (Inl x)
    then show ?thesis
      by (intro exI[of _ "Some x"] exI[of _ "[]"] exI[of _ "[?batch]"]) (simp add: Let_def)
  next
    case (Inr xml_data)
    show ?thesis
    proof (cases "fromstring e xml_data")
      case None
      with Inr show ?thesis
        by (intro exI[of _ "Some ParseError"] exI[of _ "[]"] exI[of _ "[?batch]"])
           (simp add: Let_def parse_articles_rows)
    next
      case (Some root)
      with Inr ih show ?thesis
        by (intro exI[of _ err]
              exI[of _ "map parse_article (findall [Descendant ''PubmedArticle''] root) @ rs"]
              exI[of _ "?batch # bs'"])
           (simp add: Let_def parse_articles_rows)
    qed
  qed
qed

lemma main_rows:
  "main e db = Some r \<Longrightarrow>
   \<exists>rs. \<forall>db'. main e db' = Some (r\<lparr>store := foldl insert_article (create_table db') rs\<rparr>)"
proof -
  assume m: "main e db = Some r"
  show ?thesis
  proof (cases "get_pmids (esearch e)")
    case None
    with m show ?thesis by (simp add: main_def)
  next
    case (Some d)
    obtain res reqs where d: "d = (res, reqs)" by (cases d)
    show ?thesis
    proof (cases res)
      case (Inl err)
      with Some d m show ?thesis
        by (intro exI[of _ "[]"]) (auto simp: main_def Let_def)
    next
      case (Inr pmids)
      from batch_loop_rows[of e pmids "py_range 0 (length pmids) batch_size"]
      obtain err rs bs' where b: "\<And>conn bs.
          batch_loop e pmids (py_range 0 (length pmids) batch_size) conn bs =
          \<lparr>raised = err, store = foldl insert_article conn rs, batches = bs @ bs'\<rparr>"
        by blast
      with Some d Inr m show ?thesis
        by (intro exI[of _ rs]) (auto simp: main_def Let_def)
    qed
  qed
qed

text \<open>
  What a second run does keep. When a run of the pipeline finishes and leaves the table
  \<open>store r1\<close>, a second run against the same remote data, started on that table,
  finishes the same way (same outcome, same batches) and stores no record that is not
  stored already; when no stored row lacks its identifier the table is the same row for
  row. An insertion whose identifier is already stored returns the table unchanged, so
  no field of the stored row is overwritten.
\<close>

lemma second_run_same_records:
  assumes "main e db = Some r1"
  shows "(\<exists>r2. main e (Some (store r1)) = Some r2 \<and>
            raised r2 = raised r1 \<and> batches r2 = batches r1 \<and>
            set (store r2) = set (store r1) \<and>
            ((\<forall>row \<in> set (store r1). pmid row \<noteq> None) \<longrightarrow> store r2 = store r1)) \<and>
         ((\<exists>row \<in> set conn. pmid row = pmid data) \<and> pmid data \<noteq> None \<longrightarrow>
            insert_article conn data = conn)"
proof -
  from main_rows[OF assms] obtain rs where
    rs: "\<And>db'. main e db' = Some (r1\<lparr>store := foldl insert_article (create_table db') rs\<rparr>)"
    by blast
  from rs[of db] assms have s1: "store r1 = foldl insert_article (create_table db) rs"
    by (cases r1) auto
  let ?r2 = "r1\<lparr>store := foldl insert_article (store r1) rs\<rparr>"
  have m2: "main e (Some (store r1)) = Some ?r2"
    using rs[of "Some (store r1)"] by (simp add: create_table_def)
  have "set (store ?r2) = set (store r1)"
    unfolding s1 by (simp add: insert_rows_twice_set)
  moreover have "(\<forall>row \<in> set (store r1). pmid row \<noteq> None) \<longrightarrow> store ?r2 = store r1"
    unfolding s1 by (simp add: insert_rows_twice_eq)
  moreover have "(\<exists>row \<in> set conn. pmid row = pmid data) \<and> pmid data \<noteq> None \<longrightarrow>
      insert_article conn data = conn"
    by (auto simp: insert_article_def split: option.splits)
  ultimately show ?thesis using m2 by simp
qed

lemma example_env_pmids:
  "get_pmids (esearch example_env) = Some (Inr [JStr ''1'', JStr ''2''], [0])"
proof -
  have h: "py_int (JStr ''2'') = Inr 2"
    by (simp add: int_of_string_def strip_def is_space_def is_digit_def digit_val_def)
  have "get_pmids_loop (sim_endpoint (JStr ''2'') [''1'', ''2'']) 200 [] 0 [] =
      Some (Inr [JStr ''1'', JStr ''2''], [0])"
    by (subst get_pmids_loop_step[OF _ h, of _ _ _ "[JStr ''1'', JStr ''2'']"])
       (simp_all add: sim_endpoint_def sim_page_def)
  then show ?thesis
    by (simp add: get_pmids_def example_env_def)
qed

lemma example_env_main:
  "main example_env db =
     Some \<lparr>raised = None,
           store = insert_article (insert_article (create_table db)
                     (parse_article (Elem ''PubmedArticle'' [] None
                        [Elem ''PMID'' [] (Some ''1'') [], Elem ''ArticleTitle'' [] (Some ''First'') []])))
                     (parse_article (Elem ''PubmedArticle'' [] None
                        [Elem ''PMID'' [] (Some ''2'') [], Elem ''ArticleTitle'' [] (Some ''Second'') []])),
           batches = [[JStr ''1'', JStr ''2'']]\<rparr>"
proof -
  have r: "py_range 0 (Suc (Suc 0)) 200 = [0]"
    by (subst py_range.simps, simp, subst py_range.simps, simp)
  have f: "fromstring example_env x = Some two_records" for x
    by (simp add: example_env_def)
  have a: "findall [Descendant ''PubmedArticle''] two_records =
     [Elem ''PubmedArticle'' [] None
        [Elem ''PMID'' [] (Some ''1'') [], Elem ''ArticleTitle'' [] (Some ''First'') []],
      Elem ''PubmedArticle'' [] None
        [Elem ''PMID'' [] (Some ''2'') [], Elem ''ArticleTitle'' [] (Some ''Second'') []]]"
    by (simp add: findall_def two_records_def)
  have d: "fetch_details example_env [JStr ''1'', JStr ''2''] = Inr ''1,2''"
    by (simp add: fetch_details_def example_env_def raises_for_status_def Let_def)
  show ?thesis
    by (simp add: main_def example_env_pmids r d f a parse_articles_def Let_def batch_size_def)
qed

lemma example_env_second_run:
  "\<exists>r1 r2. main example_env None = Some r1 \<and> main example_env (Some (store r1)) = Some r2 \<and>
     map pmid (store r1) = [Some ''1'', Some ''2''] \<and>
     raised r2 = raised r1 \<and> batches r2 = batches r1 \<and>
     set (store r2) = set (store r1) \<and> store r2 = store r1 \<and>
     insert_article (store r1)
       (parse_article (Elem ''PubmedArticle'' [] None
          [Elem ''PMID'' [] (Some ''1'') [], Elem ''ArticleTitle'' [] (Some ''Changed'') []])) =
     store r1"
proof -
  let ?data = "parse_article (Elem ''PubmedArticle'' [] None
          [Elem ''PMID'' [] (Some ''1'') [], Elem ''ArticleTitle'' [] (Some ''Changed'') []])"
  define r1 where "r1 = \<lparr>raised = None,
           store = insert_article (insert_article (create_table None)
                     (parse_article (Elem ''PubmedArticle'' [] None
                        [Elem ''PMID'' [] (Some ''1'') [], Elem ''ArticleTitle'' [] (Some ''First'') []])))
                     (parse_article (Elem ''PubmedArticle'' [] None
                        [Elem ''PMID'' [] (Some ''2'') [], Elem ''ArticleTitle'' [] (Some ''Second'') []])),
           batches = [[JStr ''1'', JStr ''2'']]\<rparr>"
  have m: "main example_env None = Some r1"
    unfolding r1_def by (rule example_env_main)
  have p: "map pmid (store r1) = [Some ''1'', Some ''2'']"
    by (simp add: r1_def insert_article_def create_table_def parse_article_def findall_def
          findtext_def Let_def)
  have n: "\<forall>row \<in> set (store r1). pmid row \<noteq> None"
  proof
    fix row assume "row \<in> set (store r1)"
    then have "pmid row \<in> set (map pmid (store r1))"
      by simp
    then show "pmid row \<noteq> None"
      unfolding p by auto
  qed
  have d: "pmid ?data = Some ''1''"
    by (simp add: parse_article_def findall_def findtext_def Let_def)
  have "Some ''1'' \<in> set (map pmid (store r1))"
    unfolding p by simp
  with d have k: "(\<exists>row \<in> set (store r1). pmid row = pmid ?data) \<and> pmid ?data \<noteq> None"
    by auto
  from second_run_same_records[OF m, where data = ?data and conn = "store r1"] n k obtain r2 where
    "main example_env (Some (store r1)) = Some r2" "raised r2 = raised r1"
    "batches r2 = batches r1" "set (store r2) = set (store r1)" "store r2 = store r1"
    "insert_article (store r1) ?data = store r1"
    by blast
  with m p show ?thesis
    by (intro exI[of _ r1] exI[of _ r2]) simp
qed

lemma no_pmid_env_pmids:
  "get_pmids (esearch no_pmid_env) = Some (Inr [JStr ''7''], [0])"
proof -
  have h: "py_int (JStr ''1'') = Inr 1"
    by (simp add: int_of_string_def strip_def is_space_def is_digit_def digit_val_def)
  have "get_pmids_loop (sim_endpoint (JStr ''1'') [''7'']) 200 [] 0 [] =
      Some (Inr [JStr ''7''], [0])"
    by (subst get_pmids_loop_step[OF _ h, of _ _ _ "[JStr ''7'']"])
       (simp_all add: sim_endpoint_def sim_page_def)
  then show ?thesis
    by (simp add: get_pmids_def no_pmid_env_def)
qed

lemma no_pmid_env_main:
  "main no_pmid_env db =
     Some \<lparr>raised = None, store = create_table db @ [untitled_row], batches = [[JStr ''7'']]\<rparr>"
proof -
  have r: "py_range 0 (Suc 0) 200 = [0]"
    by (subst py_range.simps, simp, subst py_range.simps, simp)
  have f: "fromstring no_pmid_env x = Some no_pmid_set" for x
    by (simp add: no_pmid_env_def)
  have a: "findall [Descendant ''PubmedArticle''] no_pmid_set =
     [Elem ''PubmedArticle'' [] None [Elem ''ArticleTitle'' [] (Some ''Untitled'') []]]"
    by (simp add: findall_def no_pmid_set_def)
  have p: "parse_article (Elem ''PubmedArticle'' [] None
             [Elem ''ArticleTitle'' [] (Some ''Untitled'') []]) = untitled_row"
    by (simp add: parse_article_def findall_def findtext_def or_empty_def Let_def untitled_row_def)
  have i: "insert_article conn untitled_row = conn @ [untitled_row]" for conn
    by (simp add: insert_article_def untitled_row_def)
  have d: "fetch_details no_pmid_env [JStr ''7''] = Inr ''7''"
    by (simp add: fetch_details_def no_pmid_env_def raises_for_status_def Let_def)
  show ?thesis
    by (simp add: main_def no_pmid_env_pmids r d f a p i parse_articles_def Let_def batch_size_def)
qed

text \<open>
  C4. The pipeline is not idempotent on remote data that holds a record without a
  \<^verbatim>\<open>PMID\<close> node. The first run stores the record's row with the identifier
  \<^verbatim>\<open>None\<close>; the second run, against the same data and started on that table,
  stores the same row once more, since \<^verbatim>\<open>INSERT OR IGNORE\<close> never finds a
  \<^verbatim>\<open>NULL\<close> key already stored. The table has one row after one run and two rows
  after two, where the docstring of \<^verbatim>\<open>insert_article\<close> promises an idempotent
  insertion.
\<close>

theorem second_run_duplicates_row:
  "main no_pmid_env None =
     Some \<lparr>raised = None, store = [untitled_row], batches = [[JStr ''7'']]\<rparr> \<and>
   main no_pmid_env (Some [untitled_row]) =
     Some \<lparr>raised = None, store = [untitled_row, untitled_row], batches = [[JStr ''7'']]\<rparr> \<and>
   insert_article [untitled_row] untitled_row \<noteq> [untitled_row]"
  by (simp add: no_pmid_env_main create_table_def insert_article_def untitled_row_def)

section \<open>Batching\<close>

text \<open>The range of the batch loop, one step at a time.\<close>

lemma py_range_nil: "\<not> i < n \<Longrightarrow> py_range i n s = []"
  by (subst py_range.simps) simp

lemma py_range_cons: "i < n \<Longrightarrow> 0 < s \<Longrightarrow> py_range i n s = i # py_range (i + s) n s"
  by (subst py_range.simps) simp

lemma py_range_nonempty: "py_range i n s \<noteq> [] \<Longrightarrow> i < n"
  using py_range_nil[of i n s] by blast

lemma batches_sizes:
  "0 < s \<Longrightarrow> n = length xs \<Longrightarrow>
   (\<forall>b \<in> set (butlast (map (\<lambda>i. take s (drop i xs)) (py_range i n s))). length b = s) \<and>
   (py_range i n s \<noteq> [] \<longrightarrow>
      0 < length (last (map (\<lambda>i. take s (drop i xs)) (py_range i n s))) \<and>
      length (last (map (\<lambda>i. take s (drop i xs)) (py_range i n s))) \<le> s)"
proof (induction i n s rule: py_range.induct)
  case (1 i n s)
  let ?f = "\<lambda>i. take s (drop i xs)"
  show ?case
  proof (cases "i < n")
    case False
    then show ?thesis
      by (simp add: py_range_nil)
  next
    case True
    have r: "py_range i n s = i # py_range (i + s) n s"
      using True "1.prems"(1) by (rule py_range_cons)
    have ih: "(\<forall>b \<in> set (butlast (map ?f (py_range (i + s) n s))). length b = s) \<and>
      (py_range (i + s) n s \<noteq> [] \<longrightarrow>
        0 < length (last (map ?f (py_range (i + s) n s))) \<and>
        length (last (map ?f (py_range (i + s) n s))) \<le> s)"
      using "1.IH" True "1.prems" by blast
    show ?thesis
    proof (cases "py_range (i + s) n s = []")
      case True
      have "map ?f (py_range i n s) = [?f i]"
        unfolding r True by simp
      moreover have "0 < length (?f i) \<and> length (?f i) \<le> s"
        using \<open>i < n\<close> "1.prems" by simp
      ultimately show ?thesis
        by simp
    next
      case False
      then have "i + s < n"
        by (rule py_range_nonempty)
      then have l: "length (?f i) = s"
        using "1.prems" by simp
      define b0 where "b0 = ?f i"
      define rest where "rest = map ?f (py_range (i + s) n s)"
      have m: "map ?f (py_range i n s) = b0 # rest"
        unfolding r b0_def rest_def by simp
      have ne: "rest \<noteq> []"
        using False by (simp add: rest_def)
      from ih False have t: "0 < length (last rest) \<and> length (last rest) \<le> s"
        unfolding rest_def by blast
      from ih have b: "\<forall>b \<in> set (butlast rest). length b = s"
        unfolding rest_def by blast
      from l have l0: "length b0 = s"
        unfolding b0_def .
      show ?thesis
        unfolding m using ne t b l0 by simp
    qed
  qed
qed

lemma batches_concat:
  "0 < s \<Longrightarrow> concat (map (\<lambda>i. take s (drop i xs)) (py_range i (length xs) s)) = drop i xs"
proof (induction i "length xs" s rule: py_range.induct)
  case (1 i s)
  show ?case
  proof (cases "i < length xs")
    case True
    with 1 have "concat (map (\<lambda>i. take s (drop i xs)) (py_range (i + s) (length xs) s)) =
        drop (i + s) xs"
      by simp
    moreover have "take s (drop i xs) @ drop (i + s) xs = drop i xs"
      by (simp add: add.commute[of i s] drop_drop[symmetric] del: drop_drop)
    ultimately show ?thesis
      using True 1(2) by (subst py_range.simps) simp
  next
    case False
    then show ?thesis
      by (subst py_range.simps) simp
  qed
qed

lemma batch_loop_batches:
  "\<exists>k \<le> length is. batches (batch_loop e pmids is conn bs) =
       bs @ take k (map (\<lambda>i. take batch_size (drop i pmids)) is) \<and>
     (raised (batch_loop e pmids is conn bs) = None \<longrightarrow> k = length is)"
proof (induction "is" arbitrary: conn bs)
  case Nil
  show ?case by simp
next
  case (Cons i "is")
  let ?batch = "take batch_size (drop i pmids)"
  show ?case
  proof (cases "fetch_details e ?batch")
    case (Inl err)
    then show ?thesis
      by (intro exI[of _ 1]) (simp add: Let_def)
  next
    case (Inr xml_data)
    show ?thesis
    proof (cases "parse_articles (fromstring e) xml_data conn")
      case (Inl err)
      with Inr show ?thesis
        by (intro exI[of _ 1]) (simp add: Let_def)
    next
      case (Inr conn')
      from Cons[of conn' "bs @ [?batch]"] obtain k where k:
        "k \<le> length is \<and>
         batches (batch_loop e pmids is conn' (bs @ [?batch])) =
           (bs @ [?batch]) @ take k (map (\<lambda>i. take batch_size (drop i pmids)) is) \<and>
         (raised (batch_loop e pmids is conn' (bs @ [?batch])) = None \<longrightarrow> k = length is)"
        ..
      have step: "batch_loop e pmids (i # is) conn bs = batch_loop e pmids is conn' (bs @ [?batch])"
        using Inr \<open>fetch_details e ?batch = Inr xml_data\<close> by (simp add: Let_def)
      show ?thesis
        unfolding step using k by (intro exI[of _ "Suc k"]) simp
    qed
  qed
qed

text \<open>
  C8. The orchestrator slices the discovered list at the offsets 0, 200, 400, ... below
  its length. The chunks concatenated in order give the list back, every chunk but the
  last has exactly 200 identifiers, and the last one has between 1 and 200. The batches
  handed to the Fetcher are a prefix of these chunks in this order, and all of them
  when the run ends without an exception.
\<close>

theorem batches_partition:
  assumes "get_pmids (esearch e) = Some (Inr pmids, reqs)"
    and "main e db = Some r"
  shows "(let chunks = map (\<lambda>i. take 200 (drop i pmids)) (py_range 0 (length pmids) 200)
          in concat chunks = pmids \<and>
             (\<forall>b \<in> set (butlast chunks). length b = 200) \<and>
             (chunks \<noteq> [] \<longrightarrow> 0 < length (last chunks) \<and> length (last chunks) \<le> 200) \<and>
             (\<exists>k \<le> length chunks. batches r = take k chunks) \<and>
             (raised r = None \<longrightarrow> batches r = chunks))"
proof -
  define idx where "idx = py_range 0 (length pmids) 200"
  define chunks where "chunks = map (\<lambda>i. take 200 (drop i pmids)) idx"
  have c: "concat chunks = pmids"
    unfolding chunks_def idx_def using batches_concat[of 200 pmids 0] by simp
  have s: "(\<forall>b \<in> set (butlast (map (\<lambda>i. take 200 (drop i pmids)) (py_range 0 (length pmids) 200))).
          length b = 200) \<and>
      (py_range 0 (length pmids) 200 \<noteq> [] \<longrightarrow>
        0 < length (last (map (\<lambda>i. take 200 (drop i pmids)) (py_range 0 (length pmids) 200))) \<and>
        length (last (map (\<lambda>i. take 200 (drop i pmids)) (py_range 0 (length pmids) 200))) \<le> 200)"
    by (rule batches_sizes[OF _ refl]) (rule zero_less_numeral)
  from s have s1: "\<forall>b \<in> set (butlast chunks). length b = 200"
    unfolding chunks_def idx_def by (rule conjunct1)
  have s2: "chunks \<noteq> [] \<longrightarrow> 0 < length (last chunks) \<and> length (last chunks) \<le> 200"
  proof
    assume "chunks \<noteq> []"
    then have "idx \<noteq> []"
      unfolding chunks_def by (rule contrapos_nn) (rule list.map_disc_iff[THEN iffD2])
    with s show "0 < length (last chunks) \<and> length (last chunks) \<le> 200"
      unfolding chunks_def idx_def by (elim conjE impE) (assumption | rule conjI)+
  qed
  have m: "main e db = Some (batch_loop e pmids idx (create_table db) [])"
    unfolding main_def Let_def assms(1) idx_def batch_size_def by simp
  with assms(2) have r: "batch_loop e pmids idx (create_table db) [] = r"
    by simp
  from batch_loop_batches[of idx e pmids "create_table db" "[]"] obtain k where
    k: "k \<le> length idx \<and>
        batches (batch_loop e pmids idx (create_table db) []) =
          [] @ take k (map (\<lambda>i. take batch_size (drop i pmids)) idx) \<and>
        (raised (batch_loop e pmids idx (create_table db) []) = None \<longrightarrow> k = length idx)"
    ..
  then have k1: "k \<le> length chunks" and k2: "batches r = take k chunks"
    and k3: "raised r = None \<longrightarrow> k = length idx"
    unfolding r by (simp_all add: chunks_def batch_size_def)
  from k1 k2 have e1: "\<exists>k \<le> length chunks. batches r = take k chunks"
    by (intro exI[of _ k]) simp
  from k2 k3 have e2: "raised r = None \<longrightarrow> batches r = chunks"
    by (simp add: chunks_def)
  show ?thesis
    unfolding Let_def idx_def[symmetric] chunks_def[symmetric]
    using c s1 s2 e1 e2 by (intro conjI)
qed

theorem batches_partition_witness:
  "get_pmids (esearch example_env) = Some (Inr [JStr ''1'', JStr ''2''], [0]) \<and>
   (\<exists>r. main example_env None = Some r \<and> raised r = None \<and>
        batches r = [[JStr ''1'', JStr ''2'']] \<and> concat (batches r) = [JStr ''1'', JStr ''2''])"
proof -
  obtain r where m: "main example_env None = Some r" and n: "raised r = None"
    using example_env_main[of None] by simp
  have p: "py_range 0 (Suc (Suc 0)) 200 = [0]"
    by (subst py_range.simps, simp, subst py_range.simps, simp)
  from batches_partition[OF example_env_pmids m] n
  have "batches r = [[JStr ''1'', JStr ''2'']]"
    by (simp add: Let_def p)
  with m n example_env_pmids show ?thesis
    by simp
qed

end
